theory Spec2Isabelle
  imports Complex_Main
begin

section \<open>Force-signal analysis: sampling rate, smoothing, heel-strike and toe-off\<close>

text \<open>
  A shallow embedding of \<^verbatim>\<open>src/force_signal_analysis.py\<close>. Exceptions are values of
  \<open>error\<close>, and a function that can raise returns \<open>error + 'a\<close>.

  The arrays hold machine numbers (doubles, or 64-bit integers when the data file has
  no decimal point), whose subtraction rounds, overflows or wraps. Where the outcome of a
  function depends on such arithmetic (which index is extreme, the sign of a rate), the
  element type is a type variable and the machine operation is a parameter of the
  embedding: a theorem then holds for whatever the operation computes. The slope
  values are of a linearly ordered type, which leaves out NaN: the difference of two
  finite doubles is never NaN. Where only values are computed and no outcome depends on
  rounding (the moving average, the recursion of the low-pass filter), elements are reals.
\<close>

subsection \<open>Errors\<close>

text \<open>
  \<open>ValueError\<close>, \<open>IndexError\<close> and \<open>ZeroDivisionError\<close> are the Python exceptions the
  code and the numpy and scipy routines it calls can raise. The last four constructors are
  the error kinds the specification names; the source defines none of them and no
  path of the embedding builds one.
\<close>

datatype error =
    ValueError
  | IndexError
  | ZeroDivisionError
  | DataFormatError
  | InsufficientDataError
  | InvalidParameterError
  | InvalidSamplingError

subsection \<open>numpy primitives\<close>

text \<open>
  \<^verbatim>\<open>np.diff(a)\<close> on a one-dimensional array is \<^verbatim>\<open>a[1:] - a[:-1]\<close>, element by element
  with the subtraction \<open>sub\<close> of the array's number type.
\<close>

definition diff :: "('a \<Rightarrow> 'a \<Rightarrow> 'b) \<Rightarrow> 'a list \<Rightarrow> 'b list" where
  "diff sub a = map2 sub (drop 1 a) (butlast a)"

text \<open>
  \<^verbatim>\<open>np.argmax\<close>: the scan starts from element 0 and moves to element \<open>i\<close> only when it
  is not \<open>\<le>\<close> the running maximum; an empty array raises ValueError.
  \<^verbatim>\<open>np.argmin\<close> is the mirror image.
\<close>

fun argmax_loop :: "('b::linorder) list \<Rightarrow> nat \<Rightarrow> 'b \<Rightarrow> nat \<Rightarrow> nat" where
  "argmax_loop [] i mp max_ind = max_ind"
| "argmax_loop (x # xs) i mp max_ind =
     (if \<not> x \<le> mp then argmax_loop xs (i + 1) x i
      else argmax_loop xs (i + 1) mp max_ind)"

definition argmax :: "('b::linorder) list \<Rightarrow> error + nat" where
  "argmax a = (case a of [] \<Rightarrow> Inl ValueError | x # xs \<Rightarrow> Inr (argmax_loop xs 1 x 0))"

fun argmin_loop :: "('b::linorder) list \<Rightarrow> nat \<Rightarrow> 'b \<Rightarrow> nat \<Rightarrow> nat" where
  "argmin_loop [] i mp min_ind = min_ind"
| "argmin_loop (x # xs) i mp min_ind =
     (if \<not> x \<ge> mp then argmin_loop xs (i + 1) x i
      else argmin_loop xs (i + 1) mp min_ind)"

definition argmin :: "('b::linorder) list \<Rightarrow> error + nat" where
  "argmin a = (case a of [] \<Rightarrow> Inl ValueError | x # xs \<Rightarrow> Inr (argmin_loop xs 1 x 0))"

text \<open>Indexing an array with a non-negative integer: IndexError when out of range.\<close>

definition getitem :: "'a list \<Rightarrow> nat \<Rightarrow> error + 'a" where
  "getitem a i = (if i < length a then Inr (a ! i) else Inl IndexError)"

subsection \<open>Event detector\<close>

text \<open>
  \<^verbatim>\<open>detect_heel_toe(force, time)\<close> returns the tuple
  \<^verbatim>\<open>(heel_idx + 1, toe_idx + 1, heel_time, toe_time)\<close>. \<open>sub\<close> is the subtraction of
  the force array's number type.
\<close>

definition detect_heel_toe ::
  "('a \<Rightarrow> 'a \<Rightarrow> 'b::linorder) \<Rightarrow> 'a list \<Rightarrow> 't list \<Rightarrow> error + (nat \<times> nat \<times> 't \<times> 't)" where
  "detect_heel_toe sub force time =
     (let slope = diff sub force in
      case argmax slope of Inl e \<Rightarrow> Inl e | Inr heel_idx \<Rightarrow>
      (case argmin slope of Inl e \<Rightarrow> Inl e | Inr toe_idx \<Rightarrow>
      (case getitem time (heel_idx + 1) of Inl e \<Rightarrow> Inl e | Inr heel_time \<Rightarrow>
      (case getitem time (toe_idx + 1) of Inl e \<Rightarrow> Inl e | Inr toe_time \<Rightarrow>
         Inr (heel_idx + 1, toe_idx + 1, heel_time, toe_time)))))"

subsection \<open>Sampling-rate estimator\<close>

text \<open>
  \<^verbatim>\<open>compute_sampling_rate(time)\<close>. \<open>np_mean\<close> is \<^verbatim>\<open>np.mean\<close> on the array of
  differences (it returns a numpy double, NaN with a warning on an empty array) and
  \<open>reciprocal\<close> is \<^verbatim>\<open>1.0 / dt\<close> for a numpy double \<open>dt\<close>, which warns and returns an
  infinity when \<open>dt\<close> is zero. Neither raises, and the function has no other statement.
\<close>

definition compute_sampling_rate ::
  "('a \<Rightarrow> 'a \<Rightarrow> 'b) \<Rightarrow> ('b list \<Rightarrow> 'c) \<Rightarrow> ('c \<Rightarrow> 'c) \<Rightarrow> 'a list \<Rightarrow> error + 'c" where
  "compute_sampling_rate sub np_mean reciprocal time =
     (let dt = np_mean (diff sub time);
          fs = reciprocal dt
      in Inr fs)"

subsection \<open>Moving-average filter\<close>

text \<open>
  \<^verbatim>\<open>np.ones(window)\<close> raises ValueError for a negative size; dividing the array by
  \<^verbatim>\<open>window\<close> divides every element (none when \<^verbatim>\<open>window\<close> is 0).
\<close>

definition ones :: "int \<Rightarrow> error + real list" where
  "ones n = (if n < 0 then Inl ValueError else Inr (replicate (nat n) 1))"

text \<open>
  The correlation kernel behind \<^verbatim>\<open>np.convolve\<close> in mode \<^verbatim>\<open>same\<close>, called with
  \<open>length ap2 \<le> length ap1\<close>: the output has the length of \<open>ap1\<close>; with
  \<open>n_left = length ap2 div 2\<close>, element \<open>k\<close> is the dot product of \<open>ap2\<close> with the
  stretch of \<open>ap1\<close> that starts \<open>n_left\<close> places before \<open>k\<close>, the places outside
  \<open>ap1\<close> left out (the shorter dot products of the first \<open>n_left\<close> and the last
  \<open>length ap2 - n_left - 1\<close> outputs).
\<close>

definition correlate_same :: "real list \<Rightarrow> real list \<Rightarrow> real list" where
  "correlate_same ap1 ap2 =
     (let n1 = length ap1; n2 = length ap2; n_left = n2 div 2 in
      map (\<lambda>k. sum_list (map (\<lambda>m. if n_left \<le> k + m \<and> k + m - n_left < n1
                                    then ap1 ! (k + m - n_left) * ap2 ! m else 0) [0..<n2]))
          [0..<n1])"

text \<open>
  \<^verbatim>\<open>np.convolve(a, v, mode="same")\<close>: the longer argument comes first (the two are
  swapped when \<open>v\<close> is longer), an empty argument raises ValueError, and the result is
  the correlation with \<open>v\<close> reversed.
\<close>

definition convolve_same :: "real list \<Rightarrow> real list \<Rightarrow> error + real list" where
  "convolve_same a v =
     (let (a, v) = (if length v > length a then (v, a) else (a, v)) in
      if length a = 0 then Inl ValueError
      else if length v = 0 then Inl ValueError
      else Inr (correlate_same a (rev v)))"

text \<open>\<^verbatim>\<open>moving_average(signal, window)\<close>.\<close>

definition moving_average :: "real list \<Rightarrow> int \<Rightarrow> error + real list" where
  "moving_average signal window =
     (case ones window of Inl e \<Rightarrow> Inl e | Inr o1 \<Rightarrow>
        (let kernel = map (\<lambda>x. x / real_of_int window) o1
         in convolve_same signal kernel))"

subsection \<open>Zero-phase low-pass filter\<close>

text \<open>
  \<^verbatim>\<open>scipy.signal.lfilter(b, a, x, zi=z)\<close>, the direct form II transposed recursion on
  coefficients already divided by \<open>a[0]\<close> and padded to a common length: each sample gives
  one output \<open>y = b[0] * x + z[0]\<close> and the delays become
  \<open>z[i] = b[i+1] * x + z[i+1] - a[i+1] * y\<close>, the last one without the \<open>z[i+1]\<close> term.
\<close>

fun lfilter_run :: "real list \<Rightarrow> real list \<Rightarrow> real list \<Rightarrow> real list \<Rightarrow> real list" where
  "lfilter_run b a [] z = []"
| "lfilter_run b a (x # xs) z =
     (let y = b ! 0 * x + (if z = [] then 0 else z ! 0);
          z' = map (\<lambda>i. b ! (i + 1) * x + (if i + 1 < length z then z ! (i + 1) else 0)
                          - a ! (i + 1) * y) [0..<length z]
      in y # lfilter_run b a xs z')"

definition lfilter :: "real list \<Rightarrow> real list \<Rightarrow> real list \<Rightarrow> real list \<Rightarrow> real list" where
  "lfilter b a x zi =
     (let n = max (length a) (length b);
          bn = map (\<lambda>c. c / a ! 0) (b @ replicate (n - length b) 0);
          an = map (\<lambda>c. c / a ! 0) (a @ replicate (n - length a) 0)
      in lfilter_run bn an x zi)"

text \<open>
  \<^verbatim>\<open>odd_ext(x, n)\<close>, the padding of \<^verbatim>\<open>filtfilt\<close>: \<open>n\<close> samples on each side, the
  reflection of the series through its end point,
  \<^verbatim>\<open>2*x[0] - x[n:0:-1]\<close> and \<^verbatim>\<open>2*x[-1] - x[-2:-(n+2):-1]\<close>.
\<close>

definition odd_ext :: "real list \<Rightarrow> nat \<Rightarrow> real list" where
  "odd_ext x n =
     map (\<lambda>v. 2 * hd x - v) (rev (take n (tl x))) @ x @
     map (\<lambda>v. 2 * last x - v) (take n (tl (rev x)))"

text \<open>
  \<^verbatim>\<open>scipy.signal.filtfilt(b, a, x)\<close> with its defaults (odd padding of
  \<open>3 * max(len(a), len(b))\<close> samples): ValueError, here \<open>None\<close>, when the series is not
  longer than the padding; then the initial state \<^verbatim>\<open>lfilter_zi(b, a)\<close>, a linear solve that
  is a parameter of the embedding (\<open>None\<close> when it raises); then the filter forward over the
  padded series, backward over the reversed result, and the padding cut off.
\<close>

definition filtfilt ::
  "(real list \<Rightarrow> real list \<Rightarrow> real list option) \<Rightarrow> real list \<Rightarrow> real list \<Rightarrow> real list
     \<Rightarrow> real list option" where
  "filtfilt lfilter_zi b a x =
     (let ntaps = max (length a) (length b);
          edge = ntaps * 3
      in if length x \<le> edge then None
         else (case lfilter_zi b a of None \<Rightarrow> None | Some zi \<Rightarrow>
           (let ext = (if edge > 0 then odd_ext x edge else x);
                x0 = hd ext;
                y = lfilter b a ext (map (\<lambda>z. z * x0) zi);
                y0 = last y;
                y = lfilter b a (rev y) (map (\<lambda>z. z * y0) zi);
                y = rev y
            in Some (if edge > 0 then take (length y - 2 * edge) (drop edge y) else y))))"

text \<open>
  \<^verbatim>\<open>butterworth_lowpass(signal, fs, fc, order)\<close>. \<open>fs\<close> and \<open>fc\<close> are Python floats or
  numpy doubles of a linearly ordered type \<open>'s\<close>; the scalar operations are parameters:
  \<open>half\<close> is \<^verbatim>\<open>fs / 2.0\<close>, \<open>scale\<close> is \<^verbatim>\<open>0.99 * nyquist\<close>, and \<open>truediv\<close> is
  \<^verbatim>\<open>fc_clipped / nyquist\<close>, which raises ZeroDivisionError (\<open>None\<close>) on Python floats with
  a zero divisor and returns an infinity or NaN on numpy doubles. Python's \<^verbatim>\<open>min(fc, c)\<close>
  is \<open>c\<close> when \<open>c < fc\<close> and \<open>fc\<close> otherwise. \<^verbatim>\<open>scipy.signal.butter\<close>, the filter design,
  is a parameter, \<open>None\<close> standing for the ValueError it raises on arguments it rejects.
\<close>

definition butterworth_lowpass ::
  "('s \<Rightarrow> 's) \<Rightarrow> ('s \<Rightarrow> 's) \<Rightarrow> ('s \<Rightarrow> 's \<Rightarrow> 'w option) \<Rightarrow>
   (int \<Rightarrow> 'w \<Rightarrow> (real list \<times> real list) option) \<Rightarrow>
   (real list \<Rightarrow> real list \<Rightarrow> real list option) \<Rightarrow>
   real list \<Rightarrow> ('s::linorder) \<Rightarrow> 's \<Rightarrow> int \<Rightarrow> error + real list" where
  "butterworth_lowpass half scale truediv butter lfilter_zi signal fs fc order =
     (let nyquist = half fs;
          fc_clipped = min fc (scale nyquist)
      in case truediv fc_clipped nyquist of None \<Rightarrow> Inl ZeroDivisionError | Some Wn \<Rightarrow>
           (case butter order Wn of None \<Rightarrow> Inl ValueError | Some (b, a) \<Rightarrow>
           (case filtfilt lfilter_zi b a signal of None \<Rightarrow> Inl ValueError | Some filtered \<Rightarrow>
              Inr filtered)))"

subsection \<open>Arrays passed by reference\<close>










section \<open>Properties\<close>

subsection \<open>The scans of argmax and argmin\<close>

text \<open>
  Invariant of the scan: with \<open>pre\<close> the elements already seen, \<open>max_ind\<close> is the first
  position of the greatest of them.
\<close>

lemma argmax_loop_inv:
  assumes "i = length pre" "max_ind < i" "mp = pre ! max_ind"
    and "\<forall>j<i. pre ! j \<le> mp" "\<forall>j<max_ind. pre ! j < mp"
  shows "argmax_loop xs i mp max_ind < length (pre @ xs) \<and>
         (\<forall>j<length (pre @ xs). (pre @ xs) ! j \<le> (pre @ xs) ! argmax_loop xs i mp max_ind) \<and>
         (\<forall>j<argmax_loop xs i mp max_ind. (pre @ xs) ! j < (pre @ xs) ! argmax_loop xs i mp max_ind)"
  using assms
proof (induction xs arbitrary: pre i mp max_ind)
  case Nil
  then show ?case by simp
next
  case (Cons x xs)
  show ?case
  proof (cases "x \<le> mp")
    case True
    have "argmax_loop xs (i + 1) mp max_ind < length ((pre @ [x]) @ xs) \<and>
         (\<forall>j<length ((pre @ [x]) @ xs). ((pre @ [x]) @ xs) ! j \<le> ((pre @ [x]) @ xs) ! argmax_loop xs (i + 1) mp max_ind) \<and>
         (\<forall>j<argmax_loop xs (i + 1) mp max_ind. ((pre @ [x]) @ xs) ! j < ((pre @ [x]) @ xs) ! argmax_loop xs (i + 1) mp max_ind)"
    proof (rule Cons.IH)
      show "i + 1 = length (pre @ [x])" using Cons.prems by simp
      show "max_ind < i + 1" using Cons.prems by simp
      show "mp = (pre @ [x]) ! max_ind" using Cons.prems by (simp add: nth_append)
      show "\<forall>j<i + 1. (pre @ [x]) ! j \<le> mp"
        using Cons.prems True by (auto simp: nth_append less_Suc_eq)
      show "\<forall>j<max_ind. (pre @ [x]) ! j < mp"
        using Cons.prems by (auto simp: nth_append)
    qed
    then show ?thesis using True by simp
  next
    case False
    have "argmax_loop xs (i + 1) x i < length ((pre @ [x]) @ xs) \<and>
         (\<forall>j<length ((pre @ [x]) @ xs). ((pre @ [x]) @ xs) ! j \<le> ((pre @ [x]) @ xs) ! argmax_loop xs (i + 1) x i) \<and>
         (\<forall>j<argmax_loop xs (i + 1) x i. ((pre @ [x]) @ xs) ! j < ((pre @ [x]) @ xs) ! argmax_loop xs (i + 1) x i)"
    proof (rule Cons.IH)
      show "i + 1 = length (pre @ [x])" using Cons.prems by simp
      show "i < i + 1" by simp
      show "x = (pre @ [x]) ! i" using Cons.prems by (simp add: nth_append)
      show "\<forall>j<i + 1. (pre @ [x]) ! j \<le> x"
        using Cons.prems False by (auto simp: nth_append less_Suc_eq) 
      show "\<forall>j<i. (pre @ [x]) ! j < x"
        using Cons.prems False by (auto simp: nth_append) 
    qed
    then show ?thesis using False by simp
  qed
qed

lemma argmax_first:
  assumes "a \<noteq> []"
  shows "\<exists>r. argmax a = Inr r \<and> r < length a \<and> (\<forall>j<length a. a ! j \<le> a ! r) \<and> (\<forall>j<r. a ! j < a ! r)"
proof -
  obtain x xs where a: "a = x # xs" using assms by (cases a) auto
  have "argmax_loop xs 1 x 0 < length ([x] @ xs) \<and>
         (\<forall>j<length ([x] @ xs). ([x] @ xs) ! j \<le> ([x] @ xs) ! argmax_loop xs 1 x 0) \<and>
         (\<forall>j<argmax_loop xs 1 x 0. ([x] @ xs) ! j < ([x] @ xs) ! argmax_loop xs 1 x 0)"
    by (rule argmax_loop_inv) auto
  then show ?thesis by (simp add: a argmax_def)
qed

lemma length_diff: "length (diff sub a) = length a - 1"
  by (simp add: diff_def)

lemma nth_diff: "i < length a - 1 \<Longrightarrow> diff sub a ! i = sub (a ! (i + 1)) (a ! i)"
  by (simp add: diff_def nth_butlast)

lemma argmin_loop_inv:
  assumes "i = length pre" "min_ind < i" "mp = pre ! min_ind"
    and "\<forall>j<i. mp \<le> pre ! j" "\<forall>j<min_ind. mp < pre ! j"
  shows "argmin_loop xs i mp min_ind < length (pre @ xs) \<and>
         (\<forall>j<length (pre @ xs). (pre @ xs) ! argmin_loop xs i mp min_ind \<le> (pre @ xs) ! j) \<and>
         (\<forall>j<argmin_loop xs i mp min_ind. (pre @ xs) ! argmin_loop xs i mp min_ind < (pre @ xs) ! j)"
  using assms
proof (induction xs arbitrary: pre i mp min_ind)
  case Nil
  then show ?case by simp
next
  case (Cons x xs)
  show ?case
  proof (cases "mp \<le> x")
    case True
    have "argmin_loop xs (i + 1) mp min_ind < length ((pre @ [x]) @ xs) \<and>
         (\<forall>j<length ((pre @ [x]) @ xs). ((pre @ [x]) @ xs) ! argmin_loop xs (i + 1) mp min_ind \<le> ((pre @ [x]) @ xs) ! j) \<and>
         (\<forall>j<argmin_loop xs (i + 1) mp min_ind. ((pre @ [x]) @ xs) ! argmin_loop xs (i + 1) mp min_ind < ((pre @ [x]) @ xs) ! j)"
    proof (rule Cons.IH)
      show "i + 1 = length (pre @ [x])" using Cons.prems by simp
      show "min_ind < i + 1" using Cons.prems by simp
      show "mp = (pre @ [x]) ! min_ind" using Cons.prems by (simp add: nth_append)
      show "\<forall>j<i + 1. mp \<le> (pre @ [x]) ! j"
        using Cons.prems True by (auto simp: nth_append less_Suc_eq)
      show "\<forall>j<min_ind. mp < (pre @ [x]) ! j"
        using Cons.prems by (auto simp: nth_append)
    qed
    then show ?thesis using True by simp
  next
    case False
    have "argmin_loop xs (i + 1) x i < length ((pre @ [x]) @ xs) \<and>
         (\<forall>j<length ((pre @ [x]) @ xs). ((pre @ [x]) @ xs) ! argmin_loop xs (i + 1) x i \<le> ((pre @ [x]) @ xs) ! j) \<and>
         (\<forall>j<argmin_loop xs (i + 1) x i. ((pre @ [x]) @ xs) ! argmin_loop xs (i + 1) x i < ((pre @ [x]) @ xs) ! j)"
    proof (rule Cons.IH)
      show "i + 1 = length (pre @ [x])" using Cons.prems by simp
      show "i < i + 1" by simp
      show "x = (pre @ [x]) ! i" using Cons.prems by (simp add: nth_append)
      show "\<forall>j<i + 1. x \<le> (pre @ [x]) ! j"
        using Cons.prems False by (auto simp: nth_append less_Suc_eq)
      show "\<forall>j<i. x < (pre @ [x]) ! j"
        using Cons.prems False by (auto simp: nth_append)
    qed
    then show ?thesis using False by simp
  qed
qed

lemma argmin_first:
  assumes "a \<noteq> []"
  shows "\<exists>r. argmin a = Inr r \<and> r < length a \<and> (\<forall>j<length a. a ! r \<le> a ! j) \<and> (\<forall>j<r. a ! r < a ! j)"
proof -
  obtain x xs where a: "a = x # xs" using assms by (cases a) auto
  have "argmin_loop xs 1 x 0 < length ([x] @ xs) \<and>
         (\<forall>j<length ([x] @ xs). ([x] @ xs) ! argmin_loop xs 1 x 0 \<le> ([x] @ xs) ! j) \<and>
         (\<forall>j<argmin_loop xs 1 x 0. ([x] @ xs) ! argmin_loop xs 1 x 0 < ([x] @ xs) ! j)"
    by (rule argmin_loop_inv) auto
  then show ?thesis by (simp add: a argmin_def)
qed

lemma detect_heel_toe_run:
  assumes "2 \<le> length force" "length time = length force"
  shows "\<exists>heel toe. argmax (diff sub force) = Inr heel \<and> argmin (diff sub force) = Inr toe \<and>
           heel < length force - 1 \<and> toe < length force - 1 \<and>
           detect_heel_toe sub force time = Inr (heel + 1, toe + 1, time ! (heel + 1), time ! (toe + 1))"
proof -
  have ne: "diff sub force \<noteq> []" using assms(1) length_diff [of sub force] by auto
  obtain heel where h: "argmax (diff sub force) = Inr heel" "heel < length (diff sub force)"
    using argmax_first [OF ne] by blast
  obtain toe where t: "argmin (diff sub force) = Inr toe" "toe < length (diff sub force)"
    using argmin_first [OF ne] by blast
  have "detect_heel_toe sub force time = Inr (heel + 1, toe + 1, time ! (heel + 1), time ! (toe + 1))"
  proof -
    have "heel + 1 < length time" "toe + 1 < length time"
      using h(2) t(2) assms by (auto simp: length_diff)
    then show ?thesis using h(1) t(1) by (simp add: detect_heel_toe_def getitem_def)
  qed
  then show ?thesis using h t by (simp add: length_diff)
qed

subsection \<open>Event detector\<close>

text \<open>
  C1. For a force series of length \<open>N \<ge> 2\<close> and a time series of the same length, the
  detector returns \<open>heel + 1\<close> and \<open>toe + 1\<close> with the timestamps read at those indices,
  where \<open>heel\<close> is the first position at which the slope, the difference
  \<open>force[j+1] - force[j]\<close> as the array subtraction computes it, is greatest (no slope is
  greater, every earlier slope is strictly smaller) and \<open>toe\<close> the first position at which
  it is least.
\<close>

theorem detect_heel_toe_first_extreme_slope:
  assumes "2 \<le> length force" "length time = length force"
  shows "\<exists>heel toe.
           detect_heel_toe sub force time = Inr (heel + 1, toe + 1, time ! (heel + 1), time ! (toe + 1)) \<and>
           heel < length force - 1 \<and> toe < length force - 1 \<and>
           (\<forall>j<length force - 1. sub (force ! (j + 1)) (force ! j) \<le> sub (force ! (heel + 1)) (force ! heel)) \<and>
           (\<forall>j<heel. sub (force ! (j + 1)) (force ! j) < sub (force ! (heel + 1)) (force ! heel)) \<and>
           (\<forall>j<length force - 1. sub (force ! (toe + 1)) (force ! toe) \<le> sub (force ! (j + 1)) (force ! j)) \<and>
           (\<forall>j<toe. sub (force ! (toe + 1)) (force ! toe) < sub (force ! (j + 1)) (force ! j))"
proof -
  obtain heel toe where r: "argmax (diff sub force) = Inr heel" "argmin (diff sub force) = Inr toe"
      "heel < length force - 1" "toe < length force - 1"
      "detect_heel_toe sub force time = Inr (heel + 1, toe + 1, time ! (heel + 1), time ! (toe + 1))"
    using detect_heel_toe_run [OF assms] by blast
  have ne: "diff sub force \<noteq> []" using assms(1) length_diff [of sub force] by auto
  have mx: "(\<forall>j<length (diff sub force). diff sub force ! j \<le> diff sub force ! heel) \<and> (\<forall>j<heel. diff sub force ! j < diff sub force ! heel)"
    using argmax_first [OF ne] r(1) by auto
  have mn: "(\<forall>j<length (diff sub force). diff sub force ! toe \<le> diff sub force ! j) \<and> (\<forall>j<toe. diff sub force ! toe < diff sub force ! j)"
    using argmin_first [OF ne] r(2) by auto
  have 1: "\<forall>j<length force - 1. sub (force ! (j + 1)) (force ! j) \<le> sub (force ! (heel + 1)) (force ! heel)"
    using mx r(3) by (simp add: length_diff nth_diff)
  have 2: "\<forall>j<heel. sub (force ! (j + 1)) (force ! j) < sub (force ! (heel + 1)) (force ! heel)"
    using mx r(3) by (simp add: length_diff nth_diff)
  have 3: "\<forall>j<length force - 1. sub (force ! (toe + 1)) (force ! toe) \<le> sub (force ! (j + 1)) (force ! j)"
    using mn r(4) by (simp add: length_diff nth_diff)
  have 4: "\<forall>j<toe. sub (force ! (toe + 1)) (force ! toe) < sub (force ! (j + 1)) (force ! j)"
    using mn r(4) by (simp add: length_diff nth_diff)
  show ?thesis using r(3,4,5) 1 2 3 4 by blast
qed

theorem detect_heel_toe_first_extreme_slope_witness:
  "2 \<le> length [0, 1, 3, 5, 2, - 1 :: real] \<and>
   length [0, 1, 2, 3, 4, 5 :: real] = length [0, 1, 3, 5, 2, - 1 :: real] \<and>
   (\<exists>heel toe.
      detect_heel_toe (-) [0, 1, 3, 5, 2, - 1 :: real] [0, 1, 2, 3, 4, 5 :: real] =
        Inr (heel + 1, toe + 1, [0, 1, 2, 3, 4, 5] ! (heel + 1), [0, 1, 2, 3, 4, 5] ! (toe + 1)) \<and>
      heel < length [0, 1, 3, 5, 2, - 1 :: real] - 1 \<and>
      toe < length [0, 1, 3, 5, 2, - 1 :: real] - 1 \<and>
      (\<forall>j<length [0, 1, 3, 5, 2, - 1 :: real] - 1.
          [0, 1, 3, 5, 2, - 1 :: real] ! (j + 1) - [0, 1, 3, 5, 2, - 1] ! j
            \<le> [0, 1, 3, 5, 2, - 1] ! (heel + 1) - [0, 1, 3, 5, 2, - 1] ! heel) \<and>
      (\<forall>j<heel.
          [0, 1, 3, 5, 2, - 1 :: real] ! (j + 1) - [0, 1, 3, 5, 2, - 1] ! j
            < [0, 1, 3, 5, 2, - 1] ! (heel + 1) - [0, 1, 3, 5, 2, - 1] ! heel) \<and>
      (\<forall>j<length [0, 1, 3, 5, 2, - 1 :: real] - 1.
          [0, 1, 3, 5, 2, - 1 :: real] ! (toe + 1) - [0, 1, 3, 5, 2, - 1] ! toe
            \<le> [0, 1, 3, 5, 2, - 1] ! (j + 1) - [0, 1, 3, 5, 2, - 1] ! j) \<and>
      (\<forall>j<toe.
          [0, 1, 3, 5, 2, - 1 :: real] ! (toe + 1) - [0, 1, 3, 5, 2, - 1] ! toe
            < [0, 1, 3, 5, 2, - 1] ! (j + 1) - [0, 1, 3, 5, 2, - 1] ! j))"
proof -
  have h1: "2 \<le> length [0, 1, 3, 5, 2, - 1 :: real]" by simp
  have h2: "length [0, 1, 2, 3, 4, 5 :: real] = length [0, 1, 3, 5, 2, - 1 :: real]" by simp
  show ?thesis
    by (intro conjI h1 h2 detect_heel_toe_first_extreme_slope [OF h1 h2])
qed

text \<open>
  C10. For a force series of length \<open>N \<ge> 2\<close> and a time series of the same length, both
  returned indices lie in \<open>[1, N - 1]\<close>, so reading the time series and the force series at
  them is in range; for \<open>N = 2\<close> both indices are 1 and the two timestamps are equal.
\<close>

theorem detect_heel_toe_indices_in_bounds:
  assumes "2 \<le> length force" "length time = length force"
  shows "\<exists>h t ht tt.
           detect_heel_toe sub force time = Inr (h, t, ht, tt) \<and>
           1 \<le> h \<and> h \<le> length force - 1 \<and> 1 \<le> t \<and> t \<le> length force - 1 \<and>
           getitem time h = Inr ht \<and> getitem time t = Inr tt \<and>
           getitem force h = Inr (force ! h) \<and> getitem force t = Inr (force ! t) \<and>
           (length force = 2 \<longrightarrow> h = 1 \<and> t = 1 \<and> ht = tt)"
proof -
  obtain heel toe where r: "heel < length force - 1" "toe < length force - 1"
      "detect_heel_toe sub force time = Inr (heel + 1, toe + 1, time ! (heel + 1), time ! (toe + 1))"
    using detect_heel_toe_run [OF assms] by blast
  have b: "heel + 1 < length force" "toe + 1 < length force"
    using r(1,2) by auto
  have g: "getitem time (heel + 1) = Inr (time ! (heel + 1))"
      "getitem time (toe + 1) = Inr (time ! (toe + 1))"
      "getitem force (heel + 1) = Inr (force ! (heel + 1))"
      "getitem force (toe + 1) = Inr (force ! (toe + 1))"
    using b assms(2) by (simp_all add: getitem_def)
  have two: "length force = 2 \<longrightarrow>
      heel + 1 = 1 \<and> toe + 1 = 1 \<and> time ! (heel + 1) = time ! (toe + 1)"
    using r(1,2) by auto
  have rng: "1 \<le> heel + 1" "heel + 1 \<le> length force - 1" "1 \<le> toe + 1" "toe + 1 \<le> length force - 1"
    using r(1,2) by auto
  show ?thesis
    using r(3) rng g two by blast
qed

theorem detect_heel_toe_indices_in_bounds_witness:
  "2 \<le> length [1, 3 :: real] \<and> length [0, 1 / 100 :: real] = length [1, 3 :: real] \<and>
   length [1, 3 :: real] = 2 \<and>
   (\<exists>h t ht tt.
      detect_heel_toe (-) [1, 3 :: real] [0, 1 / 100 :: real] = Inr (h, t, ht, tt) \<and>
      1 \<le> h \<and> h \<le> length [1, 3 :: real] - 1 \<and> 1 \<le> t \<and> t \<le> length [1, 3 :: real] - 1 \<and>
      getitem [0, 1 / 100 :: real] h = Inr ht \<and> getitem [0, 1 / 100 :: real] t = Inr tt \<and>
      getitem [1, 3 :: real] h = Inr ([1, 3] ! h) \<and> getitem [1, 3 :: real] t = Inr ([1, 3] ! t) \<and>
      h = 1 \<and> t = 1 \<and> ht = tt)"
proof -
  have h1: "2 \<le> length [1, 3 :: real]" by simp
  have h2: "length [0, 1 / 100 :: real] = length [1, 3 :: real]" by simp
  have h3: "length [1, 3 :: real] = 2" by simp
  show ?thesis
    using h1 h2 h3 detect_heel_toe_indices_in_bounds [OF h1 h2, where sub = "(-)"] by blast
qed

text \<open>
  C5, as stated, fails: on a force series of one sample the detector does fail, but with
  the ValueError that \<^verbatim>\<open>np.argmax\<close> raises on the empty slope sequence, not with
  InsufficientDataError.
\<close>

theorem detect_heel_toe_short_not_insufficient_data:
  "detect_heel_toe (-) [5 :: real] [0 :: real] = Inl ValueError \<and>
   detect_heel_toe (-) [5 :: real] [0 :: real] \<noteq> Inl InsufficientDataError"
  by (simp add: detect_heel_toe_def diff_def argmax_def)

text \<open>
  C5, amended. For every force series of length \<open>< 2\<close> and any time series, the detector
  fails with ValueError.
\<close>

theorem detect_heel_toe_short_value_error:
  assumes "length force < 2"
  shows "detect_heel_toe sub force time = Inl ValueError"
proof -
  have "diff sub force = []" using assms length_diff [of sub force] by simp
  then show ?thesis by (simp add: detect_heel_toe_def argmax_def)
qed

theorem detect_heel_toe_short_value_error_witness:
  "length [5 :: real] < 2 \<and> detect_heel_toe (-) [5 :: real] [0 :: real] = Inl ValueError"
proof -
  have h: "length [5 :: real] < 2" by simp
  show ?thesis using h detect_heel_toe_short_value_error [OF h, where sub = "(-)" and time = "[0::real]"] by simp
qed

text \<open>
  C8, as stated, fails: two force series with different magnitudes at the detected index
  give the same result, so the result does not carry the force magnitude.
\<close>

theorem detect_heel_toe_result_without_force:
  "detect_heel_toe (-) [0, 1 :: real] [0, 1 :: real] = Inr (1, 1, 1, 1) \<and>
   detect_heel_toe (-) [5, 9 :: real] [0, 1 :: real] = Inr (1, 1, 1, 1) \<and>
   [0, 1 :: real] ! 1 \<noteq> [5, 9] ! 1"
  by (simp add: detect_heel_toe_def diff_def argmax_def argmin_def getitem_def)

text \<open>
  C8, amended. For a force series of length \<open>N \<ge> 2\<close> and a time series of the same length,
  the result is the two indices and the timestamps at them, and no force magnitude. The
  force series can be read at both indices, which is left to the caller.
\<close>

theorem detect_heel_toe_indices_and_times_only:
  assumes "2 \<le> length force" "length time = length force"
  shows "\<exists>h t. detect_heel_toe sub force time = Inr (h, t, time ! h, time ! t) \<and>
               getitem force h = Inr (force ! h) \<and> getitem force t = Inr (force ! t)"
proof -
  obtain heel toe where r: "heel < length force - 1" "toe < length force - 1"
      "detect_heel_toe sub force time = Inr (heel + 1, toe + 1, time ! (heel + 1), time ! (toe + 1))"
    using detect_heel_toe_run [OF assms] by blast
  have g: "getitem force (heel + 1) = Inr (force ! (heel + 1))"
      "getitem force (toe + 1) = Inr (force ! (toe + 1))"
    using r(1,2) by (simp_all add: getitem_def)
  show ?thesis using r(3) g by blast
qed

theorem detect_heel_toe_indices_and_times_only_witness:
  "2 \<le> length [0, 1, 3, 1 :: real] \<and> length [0, 1, 2, 3 :: real] = length [0, 1, 3, 1 :: real] \<and>
   (\<exists>h t. detect_heel_toe (-) [0, 1, 3, 1 :: real] [0, 1, 2, 3 :: real] =
            Inr (h, t, [0, 1, 2, 3] ! h, [0, 1, 2, 3] ! t) \<and>
          getitem [0, 1, 3, 1 :: real] h = Inr ([0, 1, 3, 1] ! h) \<and>
          getitem [0, 1, 3, 1 :: real] t = Inr ([0, 1, 3, 1] ! t))"
proof -
  have h1: "2 \<le> length [0, 1, 3, 1 :: real]" by simp
  have h2: "length [0, 1, 2, 3 :: real] = length [0, 1, 3, 1 :: real]" by simp
  show ?thesis
    by (intro conjI h1 h2 detect_heel_toe_indices_and_times_only [OF h1 h2])
qed

subsection \<open>Sampling-rate estimator\<close>

lemma diff_conv_nth:
  "diff sub a = map (\<lambda>i. sub (a ! (i + 1)) (a ! i)) [0..<length a - 1]"
  by (rule nth_equalityI) (simp_all add: length_diff nth_diff)

text \<open>
  C6, as stated, fails: on the decreasing timestamps \<open>[1, 0]\<close>, where every operation is
  exact, the estimator returns the rate \<open>-1\<close> and raises nothing.
\<close>

theorem compute_sampling_rate_decreasing_returns:
  "compute_sampling_rate (-) (\<lambda>d. sum_list d / real (length d)) (\<lambda>dt. 1 / dt) [1, 0 :: real]
     = Inr (- 1 :: real) \<and>
   compute_sampling_rate (-) (\<lambda>d. sum_list d / real (length d)) (\<lambda>dt. 1 / dt) [1, 0 :: real]
     \<noteq> Inl InvalidSamplingError"
  by (simp add: compute_sampling_rate_def diff_def)

text \<open>
  C6, amended. For a time series of length \<open>\<ge> 2\<close> whose computed mean consecutive
  difference \<open>dt\<close> is \<open>\<le> 0\<close>, the estimator raises no error: it returns \<^verbatim>\<open>1.0 / dt\<close> as
  numpy computes it from the mean of the differences \<open>time[i+1] - time[i]\<close>.
\<close>

theorem compute_sampling_rate_nonpositive_interval:
  fixes np_mean :: "'b list \<Rightarrow> 'c::{ord,zero}"
  assumes "2 \<le> length time"
    and "np_mean (map (\<lambda>i. sub (time ! (i + 1)) (time ! i)) [0..<length time - 1]) \<le> 0"
  shows "compute_sampling_rate sub np_mean reciprocal time =
           Inr (reciprocal (np_mean (map (\<lambda>i. sub (time ! (i + 1)) (time ! i))
                                        [0..<length time - 1]))) \<and>
         (\<forall>e. compute_sampling_rate sub np_mean reciprocal time \<noteq> Inl e)"
proof -
  have "compute_sampling_rate sub np_mean reciprocal time =
          Inr (reciprocal (np_mean (diff sub time)))"
    by (simp add: compute_sampling_rate_def)
  then have "compute_sampling_rate sub np_mean reciprocal time =
           Inr (reciprocal (np_mean (map (\<lambda>i. sub (time ! (i + 1)) (time ! i))
                                        [0..<length time - 1])))"
    by (simp only: diff_conv_nth [of sub time])
  then show ?thesis by simp
qed

theorem compute_sampling_rate_nonpositive_interval_witness:
  "2 \<le> length [3, 1, 2 :: real] \<and>
   (\<lambda>d. sum_list d / real (length d))
     (map (\<lambda>i. [3, 1, 2 :: real] ! (i + 1) - [3, 1, 2] ! i) [0..<length [3, 1, 2 :: real] - 1])
     \<le> (0 :: real) \<and>
   compute_sampling_rate (-) (\<lambda>d. sum_list d / real (length d)) (\<lambda>dt. 1 / dt) [3, 1, 2 :: real]
     = Inr (- 2 :: real)"
proof -
  have u: "[0..<2] = [0, 1]" by (simp add: upt_rec)
  have h1: "2 \<le> length [3, 1, 2 :: real]" by simp
  have h2: "(\<lambda>d. sum_list d / real (length d))
     (map (\<lambda>i. [3, 1, 2 :: real] ! (i + 1) - [3, 1, 2] ! i) [0..<length [3, 1, 2 :: real] - 1])
     \<le> (0 :: real)"
    by (simp add: u)
  show ?thesis
    using h1 h2
      compute_sampling_rate_nonpositive_interval [of "[3, 1, 2 :: real]"
        "\<lambda>d. sum_list d / real (length d)" "(-)" "\<lambda>dt. 1 / dt", OF h1 h2]
    by (simp add: u)
qed

subsection \<open>Moving-average filter\<close>

lemma length_correlate_same: "length (correlate_same ap1 ap2) = length ap1"
  by (simp add: correlate_same_def Let_def)

lemma nth_correlate_same:
  assumes "k < length ap1"
  shows "correlate_same ap1 ap2 ! k =
           (\<Sum>m<length ap2. if length ap2 div 2 \<le> k + m \<and> k + m - length ap2 div 2 < length ap1
                             then ap1 ! (k + m - length ap2 div 2) * ap2 ! m else 0)"
  using assms
  by (simp add: correlate_same_def Let_def interv_sum_list_conv_sum_set_nat atLeast0LessThan
      cong: if_cong)

lemma moving_average_eq:
  assumes "1 \<le> window" "signal \<noteq> []"
  shows "moving_average signal window =
           Inr (if length signal < nat window
                then correlate_same (replicate (nat window) (1 / real_of_int window)) (rev signal)
                else correlate_same signal (replicate (nat window) (1 / real_of_int window)))"
  using assms by (simp add: moving_average_def ones_def convolve_same_def Let_def)

lemma moving_average_length:
  assumes "1 \<le> window" "signal \<noteq> []"
  shows "\<exists>out. moving_average signal window = Inr out \<and> length out = max (length signal) (nat window)"
  using moving_average_eq [OF assms] by (auto simp: length_correlate_same)

lemma window_reindex:
  fixes g :: "nat \<Rightarrow> real"
  shows "(\<Sum>m<w. if nl \<le> i + m \<and> i + m - nl < n then g (i + m - nl) else 0) =
         (\<Sum>j<n. if i \<le> j + nl \<and> j + nl < i + w then g j else 0)"
proof -
  have "(\<Sum>m<w. if nl \<le> i + m \<and> i + m - nl < n then g (i + m - nl) else 0) =
        (\<Sum>m\<in>{m \<in> {..<w}. nl \<le> i + m \<and> i + m - nl < n}. g (i + m - nl))"
    by (rule sum.inter_filter [symmetric]) simp
  also have "\<dots> = (\<Sum>j\<in>{j \<in> {..<n}. i \<le> j + nl \<and> j + nl < i + w}. g j)"
    by (rule sum.reindex_bij_witness [where i = "\<lambda>j. j + nl - i" and j = "\<lambda>m. i + m - nl"]) auto
  also have "\<dots> = (\<Sum>j<n. if i \<le> j + nl \<and> j + nl < i + w then g j else 0)"
    by (rule sum.inter_filter) simp
  finally show ?thesis .
qed

text \<open>
  C4, as stated, fails: with the window \<open>3\<close> on a force series of length \<open>2\<close> the output
  has length \<open>3\<close>, the length of the kernel, not that of the series.
\<close>

theorem moving_average_wide_window_longer:
  "moving_average [3, 6] 3 = Inr [1, 3, 3] \<and> length [1, 3, 3 :: real] \<noteq> length [3, 6 :: real]"
  by code_simp

text \<open>
  C4, amended. For a non-empty force series of length \<open>N\<close> and a window \<open>W \<ge> 1\<close> the
  filter returns a sequence of length \<open>max N W\<close>. When \<open>W \<le> N\<close> the length is \<open>N\<close> and
  \<open>output[i]\<close> is the sum of the samples \<open>signal[j]\<close> at the positions \<open>j\<close> of the series
  with \<open>i - W div 2 \<le> j < i - W div 2 + W\<close>, divided by \<open>W\<close>: near a boundary the window
  holds fewer than \<open>W\<close> samples, the divisor stays \<open>W\<close>, and no padding sample enters.
\<close>

theorem moving_average_window:
  assumes "1 \<le> window" "signal \<noteq> []"
  shows "\<exists>out. moving_average signal window = Inr out \<and>
               length out = max (length signal) (nat window) \<and>
               (nat window \<le> length signal \<longrightarrow>
                  length out = length signal \<and>
                  (\<forall>i<length signal.
                      out ! i = (\<Sum>j<length signal.
                                   if i \<le> j + nat window div 2 \<and> j + nat window div 2 < i + nat window
                                   then signal ! j else 0) / real_of_int window))"
proof (cases "nat window \<le> length signal")
  case False
  then show ?thesis using moving_average_length [OF assms] by blast
next
  case True
  let ?c = "1 / real_of_int window"
  let ?out = "correlate_same signal (replicate (nat window) ?c)"
  have eq: "moving_average signal window = Inr ?out"
    using moving_average_eq [OF assms] True by simp
  have len: "length ?out = length signal" by (rule length_correlate_same)
  have nth: "?out ! i = (\<Sum>j<length signal.
                 if i \<le> j + nat window div 2 \<and> j + nat window div 2 < i + nat window
                 then signal ! j else 0) / real_of_int window" if i: "i < length signal" for i
  proof -
    have "?out ! i = (\<Sum>m<nat window. if nat window div 2 \<le> i + m \<and> i + m - nat window div 2 < length signal
                             then signal ! (i + m - nat window div 2) * replicate (nat window) ?c ! m else 0)"
      using nth_correlate_same [OF i, of "replicate (nat window) ?c"] by (simp cong: if_cong)
    also have "\<dots> = (\<Sum>m<nat window. if nat window div 2 \<le> i + m \<and> i + m - nat window div 2 < length signal
                             then signal ! (i + m - nat window div 2) * ?c else 0)"
      by (rule sum.cong) simp_all
    also have "\<dots> = (\<Sum>j<length signal. if i \<le> j + nat window div 2 \<and> j + nat window div 2 < i + nat window
                             then signal ! j * ?c else 0)"
      by (rule window_reindex [where g = "\<lambda>j. signal ! j * ?c"])
    also have "\<dots> = (\<Sum>j<length signal. (if i \<le> j + nat window div 2 \<and> j + nat window div 2 < i + nat window
                             then signal ! j else 0) * ?c)"
      by (rule sum.cong) simp_all
    also have "\<dots> = (\<Sum>j<length signal. if i \<le> j + nat window div 2 \<and> j + nat window div 2 < i + nat window
                             then signal ! j else 0) * ?c"
      by (rule sum_distrib_right [symmetric])
    finally show ?thesis by simp
  qed
  show ?thesis using eq len nth True by (simp add: max_def)
qed

theorem moving_average_window_witness:
  "(1::int) \<le> 3 \<and> [3, 6, 9, 3 :: real] \<noteq> [] \<and> nat 3 \<le> length [3, 6, 9, 3 :: real] \<and>
   (\<exists>out. moving_average [3, 6, 9, 3] 3 = Inr out \<and>
          length out = max (length [3, 6, 9, 3 :: real]) (nat 3) \<and>
          length out = length [3, 6, 9, 3 :: real] \<and>
          (\<forall>i<length [3, 6, 9, 3 :: real].
              out ! i = (\<Sum>j<length [3, 6, 9, 3 :: real].
                           if i \<le> j + nat 3 div 2 \<and> j + nat 3 div 2 < i + nat 3
                           then [3, 6, 9, 3] ! j else 0) / real_of_int 3))"
proof -
  have h1: "(1::int) \<le> 3" by simp
  have h2: "[3, 6, 9, 3 :: real] \<noteq> []" by simp
  have h3: "nat 3 \<le> length [3, 6, 9, 3 :: real]" by simp
  show ?thesis
    using h1 h2 h3 moving_average_window [OF h1 h2] by blast
qed

text \<open>
  C7, as stated, fails: the empty series with window \<open>1\<close> raises ValueError instead of
  returning the series, and a series of length \<open>3\<close> with window \<open>5\<close> gives an output of
  length \<open>5\<close>.
\<close>

theorem moving_average_empty_or_wide_window:
  "moving_average [] 1 = Inl ValueError \<and>
   moving_average [2, 4, 6] 5 = Inr [6 / 5, 12 / 5, 12 / 5, 12 / 5, 2] \<and>
   length [6 / 5, 12 / 5, 12 / 5, 12 / 5, 2 :: real] \<noteq> length [2, 4, 6 :: real]"
  by code_simp

text \<open>
  C7, amended. For a non-empty force series, the window \<open>1\<close> returns the series unchanged,
  and every window \<open>W > 1\<close> returns a sequence of length \<open>max N W\<close>, which is the length
  \<open>N\<close> of the series exactly when \<open>W \<le> N\<close>.
\<close>

theorem moving_average_identity:
  assumes "signal \<noteq> []"
  shows "moving_average signal 1 = Inr signal \<and>
         (\<forall>window>1. \<exists>out. moving_average signal window = Inr out \<and>
                              length out = max (length signal) (nat window))"
proof -
  have "correlate_same signal [1] = signal"
  proof (rule nth_equalityI)
    show "length (correlate_same signal [1]) = length signal" by (rule length_correlate_same)
  next
    fix i assume "i < length (correlate_same signal [1])"
    then have i: "i < length signal" by (simp add: length_correlate_same)
    show "correlate_same signal [1] ! i = signal ! i"
      using i nth_correlate_same [OF i, of "[1]"] by simp
  qed
  then have "moving_average signal 1 = Inr signal"
    using assms by (simp add: moving_average_def ones_def convolve_same_def)
  moreover have "\<forall>window>1. \<exists>out. moving_average signal window = Inr out \<and>
                              length out = max (length signal) (nat window)"
    using moving_average_length [OF _ assms] by auto
  ultimately show ?thesis by blast
qed

theorem moving_average_identity_witness:
  "[2, 4, 6 :: real] \<noteq> [] \<and> moving_average [2, 4, 6] 1 = Inr [2, 4, 6] \<and>
   (1::int) < 2 \<and>
   (\<exists>out. moving_average [2, 4, 6] 2 = Inr out \<and> length out = max (length [2, 4, 6 :: real]) (nat 2))"
proof -
  have h: "[2, 4, 6 :: real] \<noteq> []" by simp
  have w: "(1::int) < 2" by simp
  show ?thesis
    using h w moving_average_identity [OF h] by blast
qed

subsection \<open>Zero-phase low-pass filter\<close>

text \<open>
  The recursion gives one output for each input sample, and the padding adds what is
  cut off at the end: when \<^verbatim>\<open>filtfilt\<close> returns, the result has the length of the series.
\<close>

lemma length_lfilter_run: "length (lfilter_run b a x z) = length x"
  by (induction x arbitrary: z) (simp_all add: Let_def)

lemma length_lfilter: "length (lfilter b a x zi) = length x"
  by (simp add: lfilter_def Let_def length_lfilter_run)

lemma length_odd_ext:
  assumes "n < length x"
  shows "length (odd_ext x n) = length x + 2 * n"
proof -
  have "length (take n (tl x)) = n" "length (take n (tl (rev x))) = n"
    using assms by simp_all
  then show ?thesis by (simp add: odd_ext_def)
qed

lemma filtfilt_short:
  assumes "length x \<le> 3 * max (length a) (length b)"
  shows "filtfilt lfilter_zi b a x = None"
  using assms by (simp add: filtfilt_def Let_def mult.commute)

lemma filtfilt_long:
  assumes "max (length a) (length b) * 3 < length x" "lfilter_zi b a = Some zi"
  shows "\<exists>y. filtfilt lfilter_zi b a x = Some y \<and> length y = length x"
proof -
  define edge where "edge = max (length a) (length b) * 3"
  define ext where "ext = (if edge > 0 then odd_ext x edge else x)"
  define y1 where "y1 = lfilter b a ext (map (\<lambda>z. z * hd ext) zi)"
  define y3 where "y3 = rev (lfilter b a (rev y1) (map (\<lambda>z. z * last y1) zi))"
  have e: "edge < length x" using assms(1) by (simp add: edge_def)
  have f: "filtfilt lfilter_zi b a x =
             Some (if edge > 0 then take (length y3 - 2 * edge) (drop edge y3) else y3)"
    unfolding filtfilt_def Let_def edge_def [symmetric]
    using e assms(2) by (simp only: y3_def y1_def ext_def not_le [symmetric] if_False option.case)
  have "length ext = length x + 2 * edge"
    using length_odd_ext [OF e] by (simp add: ext_def)
  then have "length y3 = length x + 2 * edge"
    by (simp add: y3_def y1_def length_lfilter)
  then have "length (if edge > 0 then take (length y3 - 2 * edge) (drop edge y3) else y3) = length x"
    by simp
  then show ?thesis using f by simp
qed


lemma butterworth_lowpass_clipped:
  fixes fs fc :: "'s::linorder"
  assumes "half fs \<le> fc" "scale (half fs) \<le> half fs"
  shows "butterworth_lowpass half scale truediv butter lfilter_zi signal fs fc order =
           (case truediv (scale (half fs)) (half fs) of None \<Rightarrow> Inl ZeroDivisionError
            | Some Wn \<Rightarrow>
              (case butter order Wn of None \<Rightarrow> Inl ValueError
               | Some (b, a) \<Rightarrow>
                 (case filtfilt lfilter_zi b a signal of None \<Rightarrow> Inl ValueError
                  | Some filtered \<Rightarrow> Inr filtered)))"
proof -
  have "min fc (scale (half fs)) = scale (half fs)"
    using assms by (auto simp: min_def)
  then show ?thesis by (simp add: butterworth_lowpass_def Let_def)
qed

lemma butterworth_lowpass_not_invalid_parameter:
  "butterworth_lowpass half scale truediv butter lfilter_zi signal fs fc order
     \<noteq> Inl InvalidParameterError"
  by (simp add: butterworth_lowpass_def Let_def split: option.splits)

text \<open>
  C2, as stated, fails twice. With the Python float \<open>fs = 0\<close> the division by the
  Nyquist frequency raises ZeroDivisionError, not InvalidParameterError. With
  \<open>fs = 100\<close>, \<open>fc = 60 \<ge> fs / 2\<close> and order \<open>4\<close> on a series of three samples the
  filter does not complete: the design has five coefficients, the padding is \<open>15\<close>
  samples, and \<^verbatim>\<open>filtfilt\<close> raises ValueError. (The coefficient values and the initial
  state stand in for the library's; neither outcome depends on them.)
\<close>

theorem butterworth_lowpass_zero_rate_or_short_series:
  "butterworth_lowpass (\<lambda>x. x / 2) (\<lambda>x. 99 / 100 * x)
     (\<lambda>x y. if y = 0 then None else Some (x / y))
     (\<lambda>n w. Some ([1, 4, 6, 4, 1], [1, 0, 0, 0, 0]))
     (\<lambda>b a. Some [0, 0, 0, 0])
     [1, 2, 3] (0 :: real) 8 4 = Inl ZeroDivisionError \<and>
   butterworth_lowpass (\<lambda>x. x / 2) (\<lambda>x. 99 / 100 * x)
     (\<lambda>x y. if y = 0 then None else Some (x / y))
     (\<lambda>n w. Some ([1, 4, 6, 4, 1], [1, 0, 0, 0, 0]))
     (\<lambda>b a. Some [0, 0, 0, 0])
     [1, 2, 3] (100 :: real) 60 4 = Inl ValueError"
proof -
  have s: "filtfilt lz [1, 4, 6, 4, 1] [1, 0, 0, 0, 0] [1, 2, 3] = None" for lz
    by (rule filtfilt_short) simp
  show ?thesis
    by (simp add: butterworth_lowpass_def s)
qed

text \<open>
  C2, amended. The filter never raises InvalidParameterError: it checks neither \<open>fs\<close> nor
  \<open>order\<close>. For \<open>fc \<ge> fs / 2\<close>, with \<open>0.99 * (fs / 2) \<le> fs / 2\<close> as it is for every
  \<open>fs > 0\<close>, the cutoff is clamped to \<open>0.99\<close> times the Nyquist frequency: the call
  behaves as the call with \<open>fc = 0.99 * (fs / 2)\<close>, and the design routine receives
  \<open>Wn = (0.99 * (fs / 2)) / (fs / 2)\<close>. When the design routine returns coefficients
  \<open>b\<close>, \<open>a\<close>, the filter raises ValueError on a series of at most
  \<open>3 * max(len(a), len(b))\<close> samples, and on a longer one it completes, with a result of
  the length of the series, when the initial state of the recursion can be computed.
\<close>

theorem butterworth_lowpass_clamps:
  fixes fs fc :: "'s::linorder"
  shows "butterworth_lowpass half scale truediv butter lfilter_zi signal fs fc order
           \<noteq> Inl InvalidParameterError \<and>
         (half fs \<le> fc \<and> scale (half fs) \<le> half fs \<longrightarrow>
            butterworth_lowpass half scale truediv butter lfilter_zi signal fs fc order =
            butterworth_lowpass half scale truediv butter lfilter_zi signal fs (scale (half fs)) order \<and>
            (\<forall>Wn b a. truediv (scale (half fs)) (half fs) = Some Wn \<and> butter order Wn = Some (b, a) \<longrightarrow>
               (length signal \<le> 3 * max (length a) (length b) \<longrightarrow>
                  butterworth_lowpass half scale truediv butter lfilter_zi signal fs fc order
                    = Inl ValueError) \<and>
               (3 * max (length a) (length b) < length signal \<longrightarrow>
                  (\<forall>zi. lfilter_zi b a = Some zi \<longrightarrow>
                     (\<exists>y. butterworth_lowpass half scale truediv butter lfilter_zi signal fs fc order
                            = Inr y \<and> length y = length signal)))))"
proof (intro conjI impI allI)
  show "butterworth_lowpass half scale truediv butter lfilter_zi signal fs fc order
          \<noteq> Inl InvalidParameterError"
    by (rule butterworth_lowpass_not_invalid_parameter)
next
  assume h: "half fs \<le> fc \<and> scale (half fs) \<le> half fs"
  then have "min fc (scale (half fs)) = min (scale (half fs)) (scale (half fs))"
    by (auto simp: min_def)
  then show "butterworth_lowpass half scale truediv butter lfilter_zi signal fs fc order =
        butterworth_lowpass half scale truediv butter lfilter_zi signal fs (scale (half fs)) order"
    by (simp add: butterworth_lowpass_def Let_def)
next
  fix Wn b a
  assume h: "half fs \<le> fc \<and> scale (half fs) \<le> half fs"
    and w: "truediv (scale (half fs)) (half fs) = Some Wn \<and> butter order Wn = Some (b, a)"
    and l: "length signal \<le> 3 * max (length a) (length b)"
  have "filtfilt lfilter_zi b a signal = None" by (rule filtfilt_short [OF l])
  then show "butterworth_lowpass half scale truediv butter lfilter_zi signal fs fc order
               = Inl ValueError"
    using h w by (simp add: butterworth_lowpass_clipped)
next
  fix Wn b a zi
  assume h: "half fs \<le> fc \<and> scale (half fs) \<le> half fs"
    and w: "truediv (scale (half fs)) (half fs) = Some Wn \<and> butter order Wn = Some (b, a)"
    and l: "3 * max (length a) (length b) < length signal"
    and z: "lfilter_zi b a = Some zi"
  have "max (length a) (length b) * 3 < length signal" using l by (simp add: mult.commute)
  then obtain y where "filtfilt lfilter_zi b a signal = Some y" "length y = length signal"
    using filtfilt_long [of a b signal lfilter_zi zi] z by blast
  then show "\<exists>y. butterworth_lowpass half scale truediv butter lfilter_zi signal fs fc order
                   = Inr y \<and> length y = length signal"
    using h w by (simp add: butterworth_lowpass_clipped)
qed

theorem butterworth_lowpass_clamps_witness:
  "(10 :: real) / 2 \<le> 8 \<and> 99 / 100 * ((10 :: real) / 2) \<le> 10 / 2 \<and>
   length [1, 2, 3 :: real] \<le> 3 * max (length [1, 0 :: real]) (length [1, 1 :: real]) \<and>
   3 * max (length [1, 0 :: real]) (length [1, 1 :: real]) < length [1, 2, 3, 4, 5, 6, 7 :: real] \<and>
   butterworth_lowpass (\<lambda>x. x / 2) (\<lambda>x. 99 / 100 * x)
     (\<lambda>x y. if y = 0 then None else Some (x / y))
     (\<lambda>n w. Some ([1, 1], [1, 0])) (\<lambda>b a. Some [0])
     [1, 2, 3] (10 :: real) 8 1 = Inl ValueError \<and>
   (\<exists>y. butterworth_lowpass (\<lambda>x. x / 2) (\<lambda>x. 99 / 100 * x)
          (\<lambda>x y. if y = 0 then None else Some (x / y))
          (\<lambda>n w. Some ([1, 1], [1, 0])) (\<lambda>b a. Some [0])
          [1, 2, 3, 4, 5, 6, 7] (10 :: real) 8 1 = Inr y \<and>
        length y = length [1, 2, 3, 4, 5, 6, 7 :: real])"
proof -
  have h1: "(10 :: real) / 2 \<le> 8 \<and> 99 / 100 * ((10 :: real) / 2) \<le> 10 / 2" by simp
  have h2: "length [1, 2, 3 :: real] \<le> 3 * max (length [1, 0 :: real]) (length [1, 1 :: real])"
    by simp
  have h3: "3 * max (length [1, 0 :: real]) (length [1, 1 :: real])
              < length [1, 2, 3, 4, 5, 6, 7 :: real]"
    by simp
  have d: "(\<lambda>x y. if y = 0 then None else Some (x / y)) (99 / 100 * ((10 :: real) / 2)) (10 / 2)
             = Some (99 / 100 :: real) \<and>
           (\<lambda>(n :: int) (w :: real). Some ([1, 1 :: real], [1, 0 :: real])) 1 (99 / 100)
             = Some ([1, 1], [1, 0])"
    by simp
  have z: "(\<lambda>(b :: real list) (a :: real list). Some [0 :: real]) [1, 1] [1, 0] = Some [0]"
    by simp
  note T = butterworth_lowpass_clamps [of "\<lambda>x. x / 2" "\<lambda>x. 99 / 100 * x"
      "\<lambda>x y. if y = 0 then None else Some (x / y)"
      "\<lambda>n w. Some ([1, 1], [1, 0])" "\<lambda>b a. Some [0]" _ "10 :: real" 8 1]
  have short: "butterworth_lowpass (\<lambda>x. x / 2) (\<lambda>x. 99 / 100 * x)
     (\<lambda>x y. if y = 0 then None else Some (x / y))
     (\<lambda>n w. Some ([1, 1], [1, 0])) (\<lambda>b a. Some [0])
     [1, 2, 3] (10 :: real) 8 1 = Inl ValueError"
    using T [of "[1, 2, 3]"] h1 d h2 by blast
  have long: "\<exists>y. butterworth_lowpass (\<lambda>x. x / 2) (\<lambda>x. 99 / 100 * x)
          (\<lambda>x y. if y = 0 then None else Some (x / y))
          (\<lambda>n w. Some ([1, 1], [1, 0])) (\<lambda>b a. Some [0])
          [1, 2, 3, 4, 5, 6, 7] (10 :: real) 8 1 = Inr y \<and>
        length y = length [1, 2, 3, 4, 5, 6, 7 :: real]"
    using T [of "[1, 2, 3, 4, 5, 6, 7]"] h1 d h3 z by blast
  show ?thesis using h1 h2 h3 short long by blast
qed

subsection \<open>Arrays passed by reference\<close>










end
